theory Spec2Isabelle
  imports Main "HOL-Library.Sublist"
begin

section \<open>The service worker of the site (static/sw.js)\<close>

text \<open>
  The worker has three event handlers: \<open>install\<close> fills a versioned cache with a fixed
  list of assets, \<open>activate\<close> deletes every other cache and claims the open pages, and
  \<open>fetch\<close> answers same-origin GET requests from the cache storage, then from the
  network, then from a fallback. The handlers are embedded as functions over an explicit
  cache storage. What the browser decides (the answers of the network, the failure of a
  storage operation) is read from an environment record, and every platform call a
  handler issues is recorded, in the order of issue, in a list of effects.
\<close>

subsection \<open>Requests, responses and promises\<close>

datatype response_type = TBasic | TCors | TDefault | TError | TOpaque | TOpaqueRedirect

record response =
  status :: nat
  statusText :: string
  rtype :: response_type
  headers :: "(string \<times> string) list"
  body :: string

text \<open>
  A URL is kept as its parsed components: the origin (\<open>new URL(u).origin\<close>) and the rest
  (path and query). Two requests have the same cache key when both components agree.
\<close>

type_synonym url = "string \<times> string"

text \<open>\<open>rmethod\<close> is \<open>request.method\<close>, as \<open>rtype\<close> above is \<open>response.type\<close>.\<close>

record request =
  rmethod :: string
  url :: url
  mode :: string

text \<open>A settled promise: fulfilled with a value, or rejected with an error.\<close>

datatype 'a promise = Fulfilled 'a | Rejected string

subsection \<open>The cache storage\<close>

text \<open>
  A cache is a list of entries keyed by URL; the storage is the list of named caches in
  the order of their creation, which is the order \<open>caches.keys()\<close> and \<open>caches.match\<close>
  follow. Only GET requests reach the caches, so the key is the URL alone; \<open>Vary\<close>
  headers and URL fragments play no part in the script and are left out.
\<close>

type_synonym cache = "(url \<times> response) list"
type_synonym cache_storage = "(string \<times> cache) list"

definition cache_match :: "cache \<Rightarrow> url \<Rightarrow> response option" where
  "cache_match c k = map_of c k"

definition cache_put :: "cache \<Rightarrow> url \<Rightarrow> response \<Rightarrow> cache" where
  "cache_put c k r = filter (\<lambda>e. fst e \<noteq> k) c @ [(k, r)]"

definition caches_keys :: "cache_storage \<Rightarrow> string list" where
  "caches_keys st = map fst st"

definition caches_open :: "cache_storage \<Rightarrow> string \<Rightarrow> cache_storage" where
  "caches_open st name = (if name \<in> set (caches_keys st) then st else st @ [(name, [])])"

definition caches_delete :: "cache_storage \<Rightarrow> string \<Rightarrow> cache_storage" where
  "caches_delete st name = filter (\<lambda>e. fst e \<noteq> name) st"

fun caches_match :: "cache_storage \<Rightarrow> url \<Rightarrow> response option" where
  "caches_match [] k = None"
| "caches_match ((name, c) # st) k =
     (case cache_match c k of Some r \<Rightarrow> Some r | None \<Rightarrow> caches_match st k)"

text \<open>Lookup in one named cache, and \<open>cache.put\<close> through the handle of a named cache.\<close>

definition namespace_match :: "cache_storage \<Rightarrow> string \<Rightarrow> url \<Rightarrow> response option" where
  "namespace_match st name k =
     (case map_of st name of None \<Rightarrow> None | Some c \<Rightarrow> cache_match c k)"

definition storage_put :: "cache_storage \<Rightarrow> string \<Rightarrow> url \<Rightarrow> response \<Rightarrow> cache_storage" where
  "storage_put st name k r =
     map (\<lambda>e. if fst e = name then (fst e, cache_put (snd e) k r) else e) st"

text \<open>
  \<open>cache.put\<close> and \<open>cache.addAll\<close> reject a response that has a \<open>Vary\<close> header with \<open>*\<close>
  among its field values. Header names compare without regard to letter case, and the
  field values are the parts of the header value between commas, without the blanks
  around them.
\<close>

definition ascii_lower :: "char \<Rightarrow> char" where
  "ascii_lower c =
     (case map_of (zip ''ABCDEFGHIJKLMNOPQRSTUVWXYZ'' ''abcdefghijklmnopqrstuvwxyz'') c of
        Some l \<Rightarrow> l
      | None \<Rightarrow> c)"

fun split_commas :: "string \<Rightarrow> string list" where
  "split_commas [] = [[]]"
| "split_commas (c # cs) =
     (if c = CHR '','' then [] # split_commas cs
      else (case split_commas cs of [] \<Rightarrow> [[c]] | v # vs \<Rightarrow> (c # v) # vs))"

definition is_blank :: "char \<Rightarrow> bool" where
  "is_blank c = (c = CHR '' '' \<or> c = CHR 0x09)"

definition trim :: "string \<Rightarrow> string" where
  "trim v = rev (dropWhile is_blank (rev (dropWhile is_blank v)))"

definition vary_star :: "response \<Rightarrow> bool" where
  "vary_star r =
     list_ex (\<lambda>h. map ascii_lower (fst h) = ''vary''
                 \<and> list_ex (\<lambda>v. trim v = ''*'') (split_commas (snd h)))
       (headers r)"

subsection \<open>Environment and effects\<close>

datatype store_op =
  OpOpen string | OpMatch url | OpPut string url | OpAddAll string | OpKeys | OpDelete string

text \<open>
  \<open>net\<close> is the network: \<open>None\<close> when \<open>fetch\<close> rejects. \<open>faults\<close> tells which storage
  operations reject (quota exceeded, storage unavailable).
\<close>

record env =
  location_origin :: string
  net :: "url \<Rightarrow> response option"
  faults :: "store_op \<Rightarrow> bool"

datatype effect =
  ConsoleLog string | ConsoleError string
| CachesOpen string | CachesMatch url | CachesKeys | CachesDelete string
| CacheAddAll string "url list" | CachePut string url response
| NetFetch url | SkipWaiting | ClientsClaim

subsection \<open>Constants of the script\<close>

definition CACHE_VERSION :: string where
  "CACHE_VERSION = ''v1''"

text \<open>
  The version tag is the one constant meant to be edited, so the handlers take it as a
  parameter; the deployed script is the instance at \<open>CACHE_VERSION\<close>.
\<close>

definition CACHE_NAME :: "string \<Rightarrow> string" where
  "CACHE_NAME ver = ''quang-hugo-'' @ ver"

definition STATIC_ASSETS :: "string list" where
  "STATIC_ASSETS =
     [''/'', ''/offline.html'', ''/favicon.png'', ''/logo.png'', ''/img/avatar.jpg'',
      ''/img/icons/icon-192.png'', ''/img/icons/icon-512.png'', ''/manifest.json'']"

text \<open>A path of the script is resolved against the origin the worker is served from.\<close>

definition resolve_url :: "env \<Rightarrow> string \<Rightarrow> url" where
  "resolve_url e p = (location_origin e, p)"

subsection \<open>The fetch handler\<close>

datatype outcome = PassThrough | RespondWith "response option promise"

definition offline_response :: response where
  "offline_response =
     \<lparr>status = 503, statusText = ''Service Unavailable'', rtype = TDefault,
      headers = [(''Content-Type'', ''text/plain'')], body = ''Offline''\<rparr>"

text \<open>
  \<open>caches.open(CACHE_NAME).then((cache) => { cache.put(request, responseToCache); })\<close>:
  nothing waits for this chain and nothing catches its rejection. The \<open>cache.put\<close>
  rejects on a storage failure and on a response with \<open>Vary: *\<close>.
\<close>

definition write_back ::
  "string \<Rightarrow> env \<Rightarrow> cache_storage \<Rightarrow> request \<Rightarrow> response \<Rightarrow> cache_storage \<times> effect list" where
  "write_back ver e st req resp =
     (if faults e (OpOpen (CACHE_NAME ver)) then (st, [CachesOpen (CACHE_NAME ver)])
      else if faults e (OpPut (CACHE_NAME ver) (url req)) \<or> vary_star resp
      then (caches_open st (CACHE_NAME ver),
            [CachesOpen (CACHE_NAME ver), CachePut (CACHE_NAME ver) (url req) resp])
      else (storage_put (caches_open st (CACHE_NAME ver)) (CACHE_NAME ver) (url req) resp,
            [CachesOpen (CACHE_NAME ver), CachePut (CACHE_NAME ver) (url req) resp]))"

text \<open>The callback of \<open>fetch(request).then\<close>.\<close>

definition on_response ::
  "string \<Rightarrow> env \<Rightarrow> cache_storage \<Rightarrow> request \<Rightarrow> response
     \<Rightarrow> response option promise \<times> cache_storage \<times> effect list" where
  "on_response ver e st req resp =
     (if status resp \<noteq> 200 \<or> rtype resp \<noteq> TBasic then (Fulfilled (Some resp), st, [])
      else (Fulfilled (Some resp), write_back ver e st req resp))"

text \<open>The callback of \<open>.catch\<close>: the network failed.\<close>

definition on_network_failure ::
  "env \<Rightarrow> cache_storage \<Rightarrow> request \<Rightarrow> response option promise \<times> effect list" where
  "on_network_failure e st req =
     (if mode req = ''navigate''
      then (if faults e (OpMatch (resolve_url e ''/offline.html''))
            then (Rejected ''caches.match'', [CachesMatch (resolve_url e ''/offline.html'')])
            else (Fulfilled (caches_match st (resolve_url e ''/offline.html'')),
                  [CachesMatch (resolve_url e ''/offline.html'')]))
      else (Fulfilled (Some offline_response), []))"

text \<open>The callback of \<open>caches.match(request).then\<close>.\<close>

definition on_cache_result ::
  "string \<Rightarrow> env \<Rightarrow> cache_storage \<Rightarrow> request \<Rightarrow> response option
     \<Rightarrow> response option promise \<times> cache_storage \<times> effect list" where
  "on_cache_result ver e st req cachedResponse =
     (case cachedResponse of
        Some cached \<Rightarrow> (Fulfilled (Some cached), st, [])
      | None \<Rightarrow>
          (case net e (url req) of
             Some resp \<Rightarrow>
               (case on_response ver e st req resp of
                  (p, st', effs) \<Rightarrow> (p, st', NetFetch (url req) # effs))
           | None \<Rightarrow>
               (case on_network_failure e st req of
                  (p, effs) \<Rightarrow> (p, st, NetFetch (url req) # effs))))"

definition fetch_handler ::
  "string \<Rightarrow> env \<Rightarrow> cache_storage \<Rightarrow> request \<Rightarrow> outcome \<times> cache_storage \<times> effect list" where
  "fetch_handler ver e st req =
     (if rmethod req \<noteq> ''GET'' then (PassThrough, st, [])
      else if fst (url req) \<noteq> location_origin e then (PassThrough, st, [])
      else if faults e (OpMatch (url req))
      then (RespondWith (Rejected ''caches.match''), st, [CachesMatch (url req)])
      else (case on_cache_result ver e st req (caches_match st (url req)) of
              (p, st', effs) \<Rightarrow> (RespondWith p, st', CachesMatch (url req) # effs)))"

text \<open>The same environment with the write-back operations never failing.\<close>

definition without_write_faults :: "env \<Rightarrow> env" where
  "without_write_faults e =
     e\<lparr>faults := (\<lambda>op. case op of OpOpen n \<Rightarrow> False | OpPut n u \<Rightarrow> False | _ \<Rightarrow> faults e op)\<rparr>"

subsection \<open>The install handler\<close>

text \<open>
  \<open>cache.addAll\<close> fetches every request and stores the responses only when all of them
  arrived with an ok status (200 to 299, and not 206) and without \<open>Vary: *\<close>; otherwise it
  rejects and stores nothing.
\<close>

definition addable :: "response \<Rightarrow> bool" where
  "addable r =
     (rtype r \<noteq> TError \<and> 200 \<le> status r \<and> status r \<le> 299 \<and> status r \<noteq> 206
      \<and> \<not> vary_star r)"

fun fetch_all :: "env \<Rightarrow> url list \<Rightarrow> (url \<times> response) list option" where
  "fetch_all e [] = Some []"
| "fetch_all e (u # us) =
     (case net e u of
        None \<Rightarrow> None
      | Some r \<Rightarrow>
          if addable r
          then (case fetch_all e us of None \<Rightarrow> None | Some rs \<Rightarrow> Some ((u, r) # rs))
          else None)"

definition put_all :: "cache_storage \<Rightarrow> string \<Rightarrow> (url \<times> response) list \<Rightarrow> cache_storage" where
  "put_all st name rs = fold (\<lambda>p s. storage_put s name (fst p) (snd p)) rs st"

definition cache_addAll ::
  "env \<Rightarrow> cache_storage \<Rightarrow> string \<Rightarrow> url list \<Rightarrow> unit promise \<times> cache_storage \<times> effect list" where
  "cache_addAll e st name us =
     (if faults e (OpAddAll name)
      then (Rejected ''cache.addAll'', st, CacheAddAll name us # map NetFetch us)
      else (case fetch_all e us of
              None \<Rightarrow> (Rejected ''fetch'', st, CacheAddAll name us # map NetFetch us)
            | Some rs \<Rightarrow>
                (Fulfilled (), put_all st name rs, CacheAddAll name us # map NetFetch us)))"

text \<open>The promise \<open>caches.open(CACHE_NAME).then((cache) => ...)\<close>, before its \<open>.catch\<close>.\<close>

definition install_chain ::
  "string \<Rightarrow> env \<Rightarrow> cache_storage \<Rightarrow> unit promise \<times> cache_storage \<times> effect list" where
  "install_chain ver e st =
     (if faults e (OpOpen (CACHE_NAME ver)) then (Rejected ''caches.open'', st, [])
      else (case cache_addAll e (caches_open st (CACHE_NAME ver)) (CACHE_NAME ver)
                   (map (resolve_url e) STATIC_ASSETS) of
              (p, st', effs) \<Rightarrow>
                (p, st', ConsoleLog ''[Service Worker] Caching static assets'' # effs)))"

text \<open>\<open>.catch((error) => { console.error(...); })\<close>: a rejection becomes a fulfilment.\<close>

definition catch_log ::
  "unit promise \<times> cache_storage \<times> effect list \<Rightarrow> unit promise \<times> cache_storage \<times> effect list" where
  "catch_log r =
     (case r of
        (Rejected err, st, effs) \<Rightarrow>
          (Fulfilled (), st, effs @ [ConsoleError (''[Service Worker] Cache failed: '' @ err)])
      | (Fulfilled v, st, effs) \<Rightarrow> (Fulfilled v, st, effs))"

text \<open>
  The first component is the promise handed to \<open>event.waitUntil\<close>: the install succeeds
  when it is fulfilled and fails when it is rejected.
\<close>

definition install_handler ::
  "string \<Rightarrow> env \<Rightarrow> cache_storage \<Rightarrow> unit promise \<times> cache_storage \<times> effect list" where
  "install_handler ver e st =
     (case catch_log (install_chain ver e st) of
        (p, st', effs) \<Rightarrow>
          (p, st',
           [ConsoleLog ''[Service Worker] Installing...'', CachesOpen (CACHE_NAME ver),
            SkipWaiting] @ effs))"

definition asset_fetch_fails :: "env \<Rightarrow> string \<Rightarrow> bool" where
  "asset_fetch_fails e p =
     (case net e (resolve_url e p) of None \<Rightarrow> True | Some r \<Rightarrow> \<not> addable r)"

text \<open>Every stored entry has a status that \<open>cache.addAll\<close> accepts.\<close>

definition entries_ok :: "cache_storage \<Rightarrow> bool" where
  "entries_ok st = (\<forall>ns \<in> set st. \<forall>en \<in> set (snd ns). addable (snd en))"

subsection \<open>The activate handler\<close>

text \<open>
  The handler starts two asynchronous activities and returns: the chain
  \<open>caches.keys().then(...)\<close>, handed to \<open>event.waitUntil\<close>, and \<open>self.clients.claim()\<close>.
  Their steps complete in an order the browser chooses, so the worker keeps the list of
  operations that are started and not yet completed, and a schedule (the positions
  picked in that list, one after the other) decides the order of completion.
\<close>

datatype task = KeysThen | DeleteTask string | ClaimTask

record worker =
  storage :: cache_storage
  controlling :: bool
  pending :: "task list"
  trace :: "effect list"
  failed :: bool

definition stale_names :: "string \<Rightarrow> cache_storage \<Rightarrow> string list" where
  "stale_names ver st = filter (\<lambda>cacheName. cacheName \<noteq> CACHE_NAME ver) (caches_keys st)"

definition activate_handler :: "string \<Rightarrow> worker \<Rightarrow> worker" where
  "activate_handler ver w =
     w\<lparr>pending := pending w @ [KeysThen, ClaimTask],
       trace := trace w @
         [ConsoleLog ''[Service Worker] Activating...'', CachesKeys, ClientsClaim]\<rparr>"

text \<open>
  Completing an operation: \<open>caches.keys()\<close> resolves and its callback issues one
  \<open>caches.delete\<close> for each other cache; a \<open>caches.delete\<close> resolves and the cache is gone;
  \<open>clients.claim()\<close> resolves and the worker controls the pages.
\<close>

fun run_task :: "string \<Rightarrow> env \<Rightarrow> task \<Rightarrow> worker \<Rightarrow> worker" where
  "run_task ver e KeysThen w =
     (if faults e OpKeys then w\<lparr>failed := True\<rparr>
      else w\<lparr>pending := pending w @ map DeleteTask (stale_names ver (storage w)),
             trace := trace w @
               concat (map (\<lambda>cacheName.
                 [ConsoleLog (''[Service Worker] Deleting old cache: '' @ cacheName),
                  CachesDelete cacheName]) (stale_names ver (storage w)))\<rparr>)"
| "run_task ver e (DeleteTask cacheName) w =
     (if faults e (OpDelete cacheName) then w\<lparr>failed := True\<rparr>
      else w\<lparr>storage := caches_delete (storage w) cacheName\<rparr>)"
| "run_task ver e ClaimTask w = w\<lparr>controlling := True\<rparr>"

definition step :: "string \<Rightarrow> env \<Rightarrow> nat \<Rightarrow> worker \<Rightarrow> worker" where
  "step ver e i w =
     (if i < length (pending w)
      then run_task ver e (pending w ! i)
             (w\<lparr>pending := take i (pending w) @ drop (Suc i) (pending w)\<rparr>)
      else w)"

definition run :: "string \<Rightarrow> env \<Rightarrow> nat list \<Rightarrow> worker \<Rightarrow> worker" where
  "run ver e sched w = fold (step ver e) sched w"

definition activate :: "string \<Rightarrow> env \<Rightarrow> nat list \<Rightarrow> cache_storage \<Rightarrow> worker" where
  "activate ver e sched st =
     run ver e sched
       (activate_handler ver
          \<lparr>storage = st, controlling = False, pending = [], trace = [], failed = False\<rparr>)"

text \<open>The purge meets no storage failure.\<close>

definition purge_faultless :: "env \<Rightarrow> bool" where
  "purge_faultless e = (\<not> faults e OpKeys \<and> (\<forall>cacheName. \<not> faults e (OpDelete cacheName)))"

text \<open>
  What every state of an activation satisfies when the purge meets no storage failure:
  the caches named \<open>CACHE_NAME\<close> are those of the start, no deletion of \<open>CACHE_NAME\<close> is
  under way, every other cache still stored has its deletion under way once
  \<open>caches.keys()\<close> has resolved, and the claim is under way or has taken effect.
\<close>

definition purge_inv :: "string \<Rightarrow> cache_storage \<Rightarrow> worker \<Rightarrow> bool" where
  "purge_inv ver st w \<longleftrightarrow>
     filter (\<lambda>ns. fst ns = CACHE_NAME ver) (storage w) = filter (\<lambda>ns. fst ns = CACHE_NAME ver) st
   \<and> DeleteTask (CACHE_NAME ver) \<notin> set (pending w)
   \<and> (KeysThen \<in> set (pending w)
      \<or> (\<forall>ns \<in> set (storage w). fst ns \<noteq> CACHE_NAME ver \<longrightarrow> DeleteTask (fst ns) \<in> set (pending w)))
   \<and> (ClaimTask \<in> set (pending w) \<or> controlling w)"

subsection \<open>Concrete inputs\<close>

definition site :: string where
  "site = ''https://quanghugo.github.io''"

definition ok_page :: "string \<Rightarrow> response" where
  "ok_page b = \<lparr>status = 200, statusText = ''OK'', rtype = TBasic, headers = [], body = b\<rparr>"

text \<open>Every URL is served; the network is down; only the logo cannot be fetched.\<close>

definition env_online :: env where
  "env_online =
     \<lparr>location_origin = site, net = (\<lambda>u. Some (ok_page (snd u))), faults = (\<lambda>op. False)\<rparr>"

definition env_offline :: env where
  "env_offline = \<lparr>location_origin = site, net = (\<lambda>u. None), faults = (\<lambda>op. False)\<rparr>"

definition env_logo_down :: env where
  "env_logo_down =
     \<lparr>location_origin = site,
      net = (\<lambda>u. if snd u = ''/logo.png'' then None else Some (ok_page (snd u))),
      faults = (\<lambda>op. False)\<rparr>"

text \<open>Every URL is served, the logo with a \<open>Vary\<close> header that lists \<open>*\<close>.\<close>

definition vary_page :: response where
  "vary_page =
     \<lparr>status = 200, statusText = ''OK'', rtype = TBasic,
      headers = [(''Vary'', ''Accept-Encoding, *'')], body = ''logo''\<rparr>"

definition env_logo_vary :: env where
  "env_logo_vary =
     \<lparr>location_origin = site,
      net = (\<lambda>u. if snd u = ''/logo.png'' then Some vary_page else Some (ok_page (snd u))),
      faults = (\<lambda>op. False)\<rparr>"

text \<open>The storage cannot be read; the storage cannot be written.\<close>

definition env_read_fault :: env where
  "env_read_fault =
     \<lparr>location_origin = site, net = (\<lambda>u. Some (ok_page (snd u))),
      faults = (\<lambda>op. case op of OpMatch u \<Rightarrow> True | _ \<Rightarrow> False)\<rparr>"

definition env_write_fault :: env where
  "env_write_fault =
     \<lparr>location_origin = site, net = (\<lambda>u. Some (ok_page (snd u))),
      faults = (\<lambda>op. case op of OpPut n u \<Rightarrow> True | _ \<Rightarrow> False)\<rparr>"

definition get_root :: request where
  "get_root = \<lparr>rmethod = ''GET'', url = (site, ''/''), mode = ''no-cors''\<rparr>"

definition navigate_root :: request where
  "navigate_root = \<lparr>rmethod = ''GET'', url = (site, ''/''), mode = ''navigate''\<rparr>"

definition post_root :: request where
  "post_root = \<lparr>rmethod = ''POST'', url = (site, ''/''), mode = ''cors''\<rparr>"

definition get_font :: request where
  "get_font =
     \<lparr>rmethod = ''GET'', url = (''https://fonts.googleapis.com'', ''/css''), mode = ''no-cors''\<rparr>"

text \<open>An older cache created before the current one, both holding the root page.\<close>

definition two_namespaces :: cache_storage where
  "two_namespaces =
     [(''quang-hugo-v0'', [((site, ''/''), ok_page ''old'')]),
      (''quang-hugo-v1'', [((site, ''/''), ok_page ''new'')])]"

text \<open>The cache of version \<open>v1\<close> is still stored when version \<open>v2\<close> activates.\<close>

definition two_versions :: cache_storage where
  "two_versions =
     [(''quang-hugo-v1'', [((site, ''/''), ok_page ''old'')]),
      (''quang-hugo-v2'', [((site, ''/''), ok_page ''new'')])]"

definition offline_only :: cache_storage where
  "offline_only = [(''quang-hugo-v1'', [((site, ''/offline.html''), ok_page ''offline'')])]"

definition get_offline :: request where
  "get_offline = \<lparr>rmethod = ''GET'', url = (site, ''/offline.html''), mode = ''navigate''\<rparr>"

definition no_offline :: cache_storage where
  "no_offline = [(''quang-hugo-v1'', [((site, ''/logo.png''), ok_page ''logo'')])]"

section \<open>Properties of the fetch handler\<close>

lemmas fetch_defs = fetch_handler_def on_cache_result_def on_response_def on_network_failure_def write_back_def

lemma caches_match_Some_stored:
  "caches_match st k = Some r \<Longrightarrow> \<exists>ns \<in> set st. cache_match (snd ns) k = Some r"
  by (induction st k rule: caches_match.induct) (auto split: option.splits)

lemma caches_match_None_iff:
  "caches_match st k = None \<longleftrightarrow> (\<forall>ns \<in> set st. cache_match (snd ns) k = None)"
  by (induction st k rule: caches_match.induct) (auto split: option.splits)

lemma cache_match_stored: "cache_match c k = Some r \<Longrightarrow> (k, r) \<in> set c"
  by (simp add: cache_match_def map_of_SomeD)

lemma entries_ok_match:
  assumes "entries_ok st" and "caches_match st k = Some d"
  shows "200 \<le> status d \<and> status d \<le> 299"
proof -
  from assms(2) obtain ns where ns: "ns \<in> set st" "cache_match (snd ns) k = Some d"
    using caches_match_Some_stored by blast
  then have "(k, d) \<in> set (snd ns)"
    by (simp add: cache_match_stored)
  with assms(1) ns(1) have "addable (snd (k, d))"
    unfolding entries_ok_def by blast
  then show ?thesis
    by (simp add: addable_def)
qed

lemma caches_match_append_empty: "caches_match (st @ [(n, [])]) k = caches_match st k"
  by (induction st k rule: caches_match.induct) (auto simp: cache_match_def split: option.splits)

lemma caches_match_open: "caches_match (caches_open st n) k = caches_match st k"
  by (simp add: caches_open_def caches_match_append_empty)

lemma namespace_match_open: "namespace_match (caches_open st n) name k = namespace_match st name k"
proof (cases "map_of st name")
  case None
  then show ?thesis
    by (auto simp: caches_open_def namespace_match_def cache_match_def map_add_def
        split: option.splits)
next
  case (Some c)
  then show ?thesis
    by (simp add: caches_open_def namespace_match_def)
qed

lemma caches_match_namespace:
  "\<forall>ns \<in> set st. fst ns \<noteq> name \<longrightarrow> cache_match (snd ns) k = None
     \<Longrightarrow> namespace_match st name k = Some r \<Longrightarrow> caches_match st k = Some r"
proof (induction st)
  case Nil
  then show ?case by (simp add: namespace_match_def)
next
  case (Cons ns st)
  obtain n c where ns: "ns = (n, c)" by (cases ns)
  show ?case
  proof (cases "n = name")
    case True
    with Cons.prems(2) ns show ?thesis
      by (simp add: namespace_match_def)
  next
    case False
    with Cons.prems ns have "cache_match c k = None" "namespace_match st name k = Some r"
      by (simp_all add: namespace_match_def)
    with Cons.IH Cons.prems(1) ns show ?thesis
      by simp
  qed
qed

lemma fetch_answer_without_write_faults:
  "fst (fetch_handler ver (without_write_faults e) st req) = fst (fetch_handler ver e st req)"
  by (auto simp: fetch_defs without_write_faults_def resolve_url_def split: option.splits)

lemma fetch_failed_write_storage:
  "faults e (OpOpen (CACHE_NAME ver)) \<or> faults e (OpPut (CACHE_NAME ver) (url req))
     \<Longrightarrow> fst (snd (fetch_handler ver e st req)) = st
         \<or> fst (snd (fetch_handler ver e st req)) = caches_open st (CACHE_NAME ver)"
  by (auto simp: fetch_defs split: option.splits)

text \<open>
  Claim C4. A request whose method is not GET, or whose origin is not the origin the
  worker is served from, is passed through: the handler gives no answer, leaves the
  cache storage as it is and issues no platform call at all (no cache read, no cache
  write, no network request).
\<close>

theorem fetch_pass_through:
  "rmethod req \<noteq> ''GET'' \<or> fst (url req) \<noteq> location_origin e
     \<Longrightarrow> fetch_handler ver e st req = (PassThrough, st, [])"
  by (auto simp: fetch_handler_def)

theorem fetch_pass_through_witness:
  "fetch_handler CACHE_VERSION env_online two_namespaces post_root = (PassThrough, two_namespaces, [])
   \<and> fetch_handler CACHE_VERSION env_online two_namespaces get_font = (PassThrough, two_namespaces, [])"
  using fetch_pass_through [of post_root env_online CACHE_VERSION two_namespaces]
    fetch_pass_through [of get_font env_online CACHE_VERSION two_namespaces]
  by (simp add: post_root_def get_font_def env_online_def site_def)

text \<open>
  Claim C5, as amended. The lookup of an eligible request is \<open>caches.match\<close>, which
  searches every cache of the storage in the order of creation, not only the current
  one. When some cache holds the key, the answer is the first entry found, the storage
  is unchanged, and the only platform call is that lookup: the network is not touched.
  The answer is the entry of the current cache whenever no other cache holds the key.
\<close>

theorem fetch_cache_hit:
  assumes "rmethod req = ''GET''" and "fst (url req) = location_origin e"
    and "\<not> faults e (OpMatch (url req))"
  shows "(caches_match st (url req) = Some cached \<longrightarrow>
            fetch_handler ver e st req
              = (RespondWith (Fulfilled (Some cached)), st, [CachesMatch (url req)])
            \<and> (\<exists>ns \<in> set st. cache_match (snd ns) (url req) = Some cached))
       \<and> (namespace_match st (CACHE_NAME ver) (url req) = Some current
            \<and> (\<forall>ns \<in> set st. fst ns \<noteq> CACHE_NAME ver
                   \<longrightarrow> cache_match (snd ns) (url req) = None) \<longrightarrow>
            fetch_handler ver e st req
              = (RespondWith (Fulfilled (Some current)), st, [CachesMatch (url req)]))"
proof (intro conjI impI)
  assume hit: "caches_match st (url req) = Some cached"
  with assms show "fetch_handler ver e st req
              = (RespondWith (Fulfilled (Some cached)), st, [CachesMatch (url req)])"
    by (simp add: fetch_defs)
  from hit show "\<exists>ns \<in> set st. cache_match (snd ns) (url req) = Some cached"
    by (rule caches_match_Some_stored)
next
  assume "namespace_match st (CACHE_NAME ver) (url req) = Some current
            \<and> (\<forall>ns \<in> set st. fst ns \<noteq> CACHE_NAME ver
                   \<longrightarrow> cache_match (snd ns) (url req) = None)"
  then have "caches_match st (url req) = Some current"
    using caches_match_namespace by blast
  with assms show "fetch_handler ver e st req
              = (RespondWith (Fulfilled (Some current)), st, [CachesMatch (url req)])"
    by (simp add: fetch_defs)
qed

text \<open>
  The current cache holds an entry for the key, and the answer is another one: the
  entry of a cache created earlier.
\<close>

theorem fetch_current_namespace_counterexample:
  "rmethod get_root = ''GET'' \<and> fst (url get_root) = location_origin env_online
   \<and> namespace_match two_namespaces (CACHE_NAME CACHE_VERSION) (url get_root) = Some (ok_page ''new'')
   \<and> fst (fetch_handler CACHE_VERSION env_online two_namespaces get_root)
       = RespondWith (Fulfilled (Some (ok_page ''old'')))
   \<and> ok_page ''old'' \<noteq> ok_page ''new''"
  by (simp add: fetch_defs get_root_def env_online_def two_namespaces_def namespace_match_def
      cache_match_def CACHE_NAME_def CACHE_VERSION_def ok_page_def site_def)

theorem fetch_cache_hit_witness:
  "fetch_handler CACHE_VERSION env_online two_namespaces get_root
     = (RespondWith (Fulfilled (Some (ok_page ''old''))), two_namespaces, [CachesMatch (site, ''/'')])
   \<and> fetch_handler CACHE_VERSION env_online offline_only get_offline
     = (RespondWith (Fulfilled (Some (ok_page ''offline''))), offline_only,
        [CachesMatch (site, ''/offline.html'')])"
proof -
  have a: "rmethod get_root = ''GET''" "fst (url get_root) = location_origin env_online"
    "\<not> faults env_online (OpMatch (url get_root))"
    by (simp_all add: get_root_def env_online_def)
  have b: "caches_match two_namespaces (url get_root) = Some (ok_page ''old'')"
    by (simp add: get_root_def two_namespaces_def cache_match_def)
  have c: "rmethod get_offline = ''GET''" "fst (url get_offline) = location_origin env_online"
    "\<not> faults env_online (OpMatch (url get_offline))"
    by (simp_all add: get_offline_def env_online_def)
  have d: "namespace_match offline_only (CACHE_NAME CACHE_VERSION) (url get_offline)
             = Some (ok_page ''offline'')"
    by (simp add: namespace_match_def offline_only_def cache_match_def get_offline_def
        CACHE_NAME_def CACHE_VERSION_def)
  have f: "\<forall>ns \<in> set offline_only. fst ns \<noteq> CACHE_NAME CACHE_VERSION
             \<longrightarrow> cache_match (snd ns) (url get_offline) = None"
    by (simp add: offline_only_def CACHE_NAME_def CACHE_VERSION_def)
  from fetch_cache_hit [OF a, of two_namespaces "ok_page ''old''" CACHE_VERSION] b
  have "fetch_handler CACHE_VERSION env_online two_namespaces get_root
     = (RespondWith (Fulfilled (Some (ok_page ''old''))), two_namespaces, [CachesMatch (url get_root)])"
    by simp
  moreover from fetch_cache_hit [OF c, of offline_only _ CACHE_VERSION "ok_page ''offline''"] d f
  have "fetch_handler CACHE_VERSION env_online offline_only get_offline
     = (RespondWith (Fulfilled (Some (ok_page ''offline''))), offline_only,
        [CachesMatch (url get_offline)])"
    by simp
  ultimately show ?thesis
    by (simp add: get_root_def get_offline_def)
qed

text \<open>
  Claim C6. The handler writes a response into the cache storage only when its status
  is 200 and its type is basic: every \<open>cache.put\<close> it issues, and every change of the
  storage, is for such a response of the network to this request. A network response
  of any other kind is the answer, and the storage stays as it was.
\<close>

theorem fetch_writes_only_eligible:
  "fetch_handler ver e st req = (out, st', effs) \<Longrightarrow>
     (\<forall>name k r. CachePut name k r \<in> set effs \<longrightarrow>
        status r = 200 \<and> rtype r = TBasic \<and> net e (url req) = Some r
        \<and> name = CACHE_NAME ver \<and> k = url req)
   \<and> (st' \<noteq> st \<longrightarrow> (\<exists>r. net e (url req) = Some r \<and> status r = 200 \<and> rtype r = TBasic
        \<and> out = RespondWith (Fulfilled (Some r))))
   \<and> (\<forall>r. NetFetch (url req) \<in> set effs \<and> net e (url req) = Some r
          \<and> \<not> (status r = 200 \<and> rtype r = TBasic) \<longrightarrow>
        out = RespondWith (Fulfilled (Some r)) \<and> st' = st
        \<and> effs = [CachesMatch (url req), NetFetch (url req)])"
  by (auto simp: fetch_defs split: if_splits option.splits prod.splits)

theorem fetch_writes_only_eligible_witness:
  "fetch_handler CACHE_VERSION env_online [] get_root
     = (RespondWith (Fulfilled (Some (ok_page ''/''))),
        [(''quang-hugo-v1'', [((site, ''/''), ok_page ''/'')])],
        [CachesMatch (site, ''/''), NetFetch (site, ''/''), CachesOpen ''quang-hugo-v1'',
         CachePut ''quang-hugo-v1'' (site, ''/'') (ok_page ''/'')])
   \<and> status (ok_page ''/'') = 200 \<and> rtype (ok_page ''/'') = TBasic"
  using fetch_writes_only_eligible [of CACHE_VERSION env_online "[]" get_root
      "RespondWith (Fulfilled (Some (ok_page ''/'')))"
      "[(''quang-hugo-v1'', [((site, ''/''), ok_page ''/'')])]"
      "[CachesMatch (site, ''/''), NetFetch (site, ''/''), CachesOpen ''quang-hugo-v1'',
         CachePut ''quang-hugo-v1'' (site, ''/'') (ok_page ''/'')]"]
  by (simp add: fetch_defs get_root_def env_online_def CACHE_NAME_def CACHE_VERSION_def
      caches_open_def caches_keys_def storage_put_def cache_put_def ok_page_def vary_star_def)

text \<open>
  Claim C7, as amended. An eligible request is not in the storage and the network
  fails. For a navigation the answer is the result of looking \<open>/offline.html\<close> up in
  the storage: the stored document when there is one (with a status from 200 to 299 when
  every stored entry has one), and nothing otherwise. For any other request the answer
  is the synthetic response: status 503, content type \<open>text/plain\<close>, body \<open>Offline\<close>.
\<close>

theorem fetch_network_failure:
  "rmethod req = ''GET'' \<Longrightarrow> fst (url req) = location_origin e
     \<Longrightarrow> \<not> faults e (OpMatch (url req))
     \<Longrightarrow> caches_match st (url req) = None \<Longrightarrow> net e (url req) = None
     \<Longrightarrow> (mode req = ''navigate'' \<and> \<not> faults e (OpMatch (resolve_url e ''/offline.html'')) \<longrightarrow>
            fst (fetch_handler ver e st req)
              = RespondWith (Fulfilled (caches_match st (resolve_url e ''/offline.html'')))
            \<and> (\<forall>d. entries_ok st \<and> caches_match st (resolve_url e ''/offline.html'') = Some d
                   \<longrightarrow> 200 \<le> status d \<and> status d \<le> 299))
       \<and> (mode req \<noteq> ''navigate'' \<longrightarrow>
            fst (fetch_handler ver e st req) = RespondWith (Fulfilled (Some offline_response))
            \<and> status offline_response = 503
            \<and> headers offline_response = [(''Content-Type'', ''text/plain'')]
            \<and> body offline_response = ''Offline'')"
  using entries_ok_match[of st "resolve_url e ''/offline.html''"]
  by (auto simp: fetch_defs offline_response_def)

text \<open>With an empty storage the answer to a navigation is no document at all.\<close>

theorem fetch_network_failure_counterexample:
  "rmethod navigate_root = ''GET'' \<and> fst (url navigate_root) = location_origin env_offline
   \<and> mode navigate_root = ''navigate''
   \<and> caches_match [] (url navigate_root) = None \<and> net env_offline (url navigate_root) = None
   \<and> fst (fetch_handler CACHE_VERSION env_offline [] navigate_root) = RespondWith (Fulfilled None)"
  by (simp add: fetch_defs navigate_root_def env_offline_def)

theorem fetch_network_failure_witness:
  "fst (fetch_handler CACHE_VERSION env_offline offline_only navigate_root)
     = RespondWith (Fulfilled (Some (ok_page ''offline'')))
   \<and> fst (fetch_handler CACHE_VERSION env_offline offline_only get_root)
     = RespondWith (Fulfilled (Some offline_response))"
proof -
  have n1: "rmethod navigate_root = ''GET''" by (simp add: navigate_root_def)
  have n2: "fst (url navigate_root) = location_origin env_offline"
    by (simp add: navigate_root_def env_offline_def)
  have n3: "\<not> faults env_offline (OpMatch (url navigate_root))" by (simp add: env_offline_def)
  have n4: "caches_match offline_only (url navigate_root) = None"
    by (simp add: navigate_root_def offline_only_def cache_match_def site_def)
  have n5: "net env_offline (url navigate_root) = None" by (simp add: env_offline_def)
  have n6: "mode navigate_root = ''navigate''" by (simp add: navigate_root_def)
  have n7: "\<not> faults env_offline (OpMatch (resolve_url env_offline ''/offline.html''))"
    by (simp add: env_offline_def)
  have n8: "caches_match offline_only (resolve_url env_offline ''/offline.html'')
              = Some (ok_page ''offline'')"
    by (simp add: offline_only_def cache_match_def resolve_url_def env_offline_def)
  have g1: "rmethod get_root = ''GET''" by (simp add: get_root_def)
  have g2: "fst (url get_root) = location_origin env_offline"
    by (simp add: get_root_def env_offline_def)
  have g3: "\<not> faults env_offline (OpMatch (url get_root))" by (simp add: env_offline_def)
  have g4: "caches_match offline_only (url get_root) = None"
    by (simp add: get_root_def offline_only_def cache_match_def site_def)
  have g5: "net env_offline (url get_root) = None" by (simp add: env_offline_def)
  have g6: "mode get_root \<noteq> ''navigate''" by (simp add: get_root_def)
  from fetch_network_failure [OF n1 n2 n3 n4 n5, of CACHE_VERSION] n6 n7 n8
  have "fst (fetch_handler CACHE_VERSION env_offline offline_only navigate_root)
          = RespondWith (Fulfilled (Some (ok_page ''offline'')))"
    by simp
  moreover from fetch_network_failure [OF g1 g2 g3 g4 g5, of CACHE_VERSION] g6
  have "fst (fetch_handler CACHE_VERSION env_offline offline_only get_root)
          = RespondWith (Fulfilled (Some offline_response))"
    by simp
  ultimately show ?thesis by simp
qed

text \<open>
  Claim C9, as amended. A failed read is not taken as a cache miss: the promise handed
  to \<open>respondWith\<close> rejects, and the network is not asked. A failed write (the
  \<open>caches.open\<close> or the \<open>cache.put\<close> of the write-back) changes neither the answer nor
  what any lookup returns, for any key of any cache.
\<close>

theorem fetch_store_failure:
  "rmethod req = ''GET'' \<Longrightarrow> fst (url req) = location_origin e \<Longrightarrow>
     (faults e (OpMatch (url req)) \<longrightarrow>
        fetch_handler ver e st req
          = (RespondWith (Rejected ''caches.match''), st, [CachesMatch (url req)]))
   \<and> (faults e (OpOpen (CACHE_NAME ver)) \<or> faults e (OpPut (CACHE_NAME ver) (url req)) \<longrightarrow>
        fst (fetch_handler ver e st req) = fst (fetch_handler ver (without_write_faults e) st req)
        \<and> (\<forall>k. caches_match (fst (snd (fetch_handler ver e st req))) k = caches_match st k)
        \<and> (\<forall>name k. namespace_match (fst (snd (fetch_handler ver e st req))) name k
                       = namespace_match st name k))"
proof (intro conjI impI)
  assume "rmethod req = ''GET''" "fst (url req) = location_origin e" "faults e (OpMatch (url req))"
  then show "fetch_handler ver e st req
          = (RespondWith (Rejected ''caches.match''), st, [CachesMatch (url req)])"
    by (simp add: fetch_handler_def)
next
  show "fst (fetch_handler ver e st req) = fst (fetch_handler ver (without_write_faults e) st req)"
    by (simp add: fetch_answer_without_write_faults)
next
  assume w: "faults e (OpOpen (CACHE_NAME ver)) \<or> faults e (OpPut (CACHE_NAME ver) (url req))"
  have c: "fst (snd (fetch_handler ver e st req)) = st
        \<or> fst (snd (fetch_handler ver e st req)) = caches_open st (CACHE_NAME ver)"
    using fetch_failed_write_storage [OF w] .
  from c show "\<forall>k. caches_match (fst (snd (fetch_handler ver e st req))) k = caches_match st k"
    by (auto simp: caches_match_open)
  from c show "\<forall>name k. namespace_match (fst (snd (fetch_handler ver e st req))) name k
                       = namespace_match st name k"
    by (auto simp: namespace_match_open)
qed

text \<open>The read fails, the network would have answered, and the answer is a rejection.\<close>

theorem fetch_store_failure_counterexample:
  "rmethod get_root = ''GET'' \<and> fst (url get_root) = location_origin env_read_fault
   \<and> faults env_read_fault (OpMatch (url get_root))
   \<and> net env_read_fault (url get_root) = Some (ok_page ''/'')
   \<and> fetch_handler CACHE_VERSION env_read_fault [] get_root
       = (RespondWith (Rejected ''caches.match''), [], [CachesMatch (site, ''/'')])"
  by (simp add: fetch_handler_def get_root_def env_read_fault_def)

theorem fetch_store_failure_witness:
  "fetch_handler CACHE_VERSION env_read_fault [] get_root
     = (RespondWith (Rejected ''caches.match''), [], [CachesMatch (url get_root)])
   \<and> fst (fetch_handler CACHE_VERSION env_write_fault [] get_root)
       = RespondWith (Fulfilled (Some (ok_page ''/'')))
   \<and> caches_match (fst (snd (fetch_handler CACHE_VERSION env_write_fault [] get_root)))
        (url get_root) = None"
proof -
  have r1: "rmethod get_root = ''GET''" by (simp add: get_root_def)
  have r2: "fst (url get_root) = location_origin env_read_fault"
    by (simp add: get_root_def env_read_fault_def)
  have r3: "faults env_read_fault (OpMatch (url get_root))" by (simp add: env_read_fault_def)
  have w2: "fst (url get_root) = location_origin env_write_fault"
    by (simp add: get_root_def env_write_fault_def)
  have w3: "faults env_write_fault (OpPut (CACHE_NAME CACHE_VERSION) (url get_root))"
    by (simp add: env_write_fault_def)
  have w4: "fst (fetch_handler CACHE_VERSION (without_write_faults env_write_fault) [] get_root)
              = RespondWith (Fulfilled (Some (ok_page ''/'')))"
    by (simp add: fetch_defs without_write_faults_def env_write_fault_def get_root_def)
  from fetch_store_failure [OF r1 r2, of CACHE_VERSION "[]"] r3
  have "fetch_handler CACHE_VERSION env_read_fault [] get_root
     = (RespondWith (Rejected ''caches.match''), [], [CachesMatch (url get_root)])"
    by simp
  moreover from fetch_store_failure [OF r1 w2, of CACHE_VERSION "[]"] w3 w4
  have "fst (fetch_handler CACHE_VERSION env_write_fault [] get_root)
       = RespondWith (Fulfilled (Some (ok_page ''/'')))
   \<and> (\<forall>k. caches_match (fst (snd (fetch_handler CACHE_VERSION env_write_fault [] get_root))) k
            = caches_match [] k)"
    by simp
  ultimately show ?thesis by (cases "url get_root") simp
qed

text \<open>
  Claim C10. A navigation is not in the storage, the network fails, and no cache holds
  \<open>/offline.html\<close>: the answer is the undefined result of the lookup, and no synthetic
  response takes its place.
\<close>

theorem fetch_offline_document_absent:
  "rmethod req = ''GET'' \<Longrightarrow> fst (url req) = location_origin e
     \<Longrightarrow> \<not> faults e (OpMatch (url req))
     \<Longrightarrow> \<not> faults e (OpMatch (resolve_url e ''/offline.html''))
     \<Longrightarrow> mode req = ''navigate''
     \<Longrightarrow> caches_match st (url req) = None \<Longrightarrow> net e (url req) = None
     \<Longrightarrow> \<forall>ns \<in> set st. cache_match (snd ns) (resolve_url e ''/offline.html'') = None
     \<Longrightarrow> fetch_handler ver e st req
           = (RespondWith (Fulfilled None), st,
              [CachesMatch (url req), NetFetch (url req),
               CachesMatch (resolve_url e ''/offline.html'')])"
  using caches_match_None_iff[of st "resolve_url e ''/offline.html''"]
  by (simp add: fetch_defs)

theorem fetch_offline_document_absent_witness:
  "fetch_handler CACHE_VERSION env_offline no_offline navigate_root
     = (RespondWith (Fulfilled None), no_offline,
        [CachesMatch (site, ''/''), NetFetch (site, ''/''), CachesMatch (site, ''/offline.html'')])"
  using fetch_offline_document_absent [of navigate_root env_offline no_offline CACHE_VERSION]
  by (simp add: navigate_root_def env_offline_def no_offline_def cache_match_def
      resolve_url_def site_def)

section \<open>Properties of the install handler\<close>

lemmas install_defs = install_handler_def catch_log_def install_chain_def cache_addAll_def

lemma fetch_all_None:
  "u \<in> set us \<Longrightarrow> (case net e u of None \<Rightarrow> True | Some r \<Rightarrow> \<not> addable r)
     \<Longrightarrow> fetch_all e us = None"
  by (induction us) (auto split: option.splits)


lemma assets_fetch_None:
  assumes "p \<in> set STATIC_ASSETS" and "asset_fetch_fails e p"
  shows "fetch_all e (map (resolve_url e) STATIC_ASSETS) = None"
proof (rule fetch_all_None)
  show "resolve_url e p \<in> set (map (resolve_url e) STATIC_ASSETS)"
    using assms(1) by simp
  show "case net e (resolve_url e p) of None \<Rightarrow> True | Some r \<Rightarrow> \<not> addable r"
    using assms(2) by (simp add: asset_fetch_fails_def)
qed

lemma install_never_rejects: "fst (install_handler ver e st) = Fulfilled ()"
  by (auto simp: install_defs split: option.splits prod.splits promise.splits)

lemma distinct_count_le_1: "distinct xs \<Longrightarrow> count_list xs x \<le> 1"
  by (induction xs) auto

lemma distinct_assets: "distinct (map (resolve_url e) STATIC_ASSETS)"
  by (simp add: STATIC_ASSETS_def resolve_url_def)

lemma count_fetches:
  "count_list (map (NetFetch \<circ> f) ps) (NetFetch u) = count_list (map f ps) u"
  by (induction ps) auto

lemma install_fetches_once:
  "count_list (snd (snd (install_handler ver e st))) (NetFetch u) \<le> 1"
  using distinct_count_le_1 [OF distinct_assets, of e u]
  by (auto simp: install_defs count_fetches split: option.splits)

lemma install_failed_storage:
  assumes "p \<in> set STATIC_ASSETS" and "asset_fetch_fails e p"
  shows "fst (snd (install_handler ver e st)) = st
       \<or> fst (snd (install_handler ver e st)) = caches_open st (CACHE_NAME ver)"
  using assets_fetch_None [OF assms]
  by (auto simp: install_defs)

lemma install_failed_error:
  assumes "p \<in> set STATIC_ASSETS" and "asset_fetch_fails e p"
  shows "\<exists>err. last (snd (snd (install_handler ver e st)))
            = ConsoleError (''[Service Worker] Cache failed: '' @ err)"
  using assets_fetch_None [OF assms]
  by (auto simp: install_defs)

text \<open>
  A response with \<open>Vary: *\<close> is one \<open>cache.addAll\<close> rejects: when the logo arrives with
  such a header the install stores no asset at all.
\<close>

lemma vary_star_vary_page: "vary_star vary_page"
  by (simp add: vary_star_def vary_page_def ascii_lower_def trim_def is_blank_def)

lemma logo_vary_fetch_fails: "asset_fetch_fails env_logo_vary ''/logo.png''"
  by (simp add: asset_fetch_fails_def env_logo_vary_def resolve_url_def addable_def
      vary_star_vary_page)

lemma install_vary_star_stores_nothing:
  "namespace_match (fst (snd (install_handler ver env_logo_vary []))) name k = None"
proof -
  have "''/logo.png'' \<in> set STATIC_ASSETS"
    by (simp add: STATIC_ASSETS_def)
  then have "fst (snd (install_handler ver env_logo_vary [])) = []
       \<or> fst (snd (install_handler ver env_logo_vary [])) = caches_open [] (CACHE_NAME ver)"
    using logo_vary_fetch_fails by (rule install_failed_storage)
  then show ?thesis
    by (auto simp: namespace_match_open) (simp_all add: namespace_match_def)
qed

text \<open>
  Claim C1, as amended. When the fetch of an asset of the list fails (the network
  rejects, or the response has no ok status), \<open>cache.addAll\<close> rejects, but the handler
  catches the rejection: the error is written to the console and the promise handed to
  \<open>waitUntil\<close> is fulfilled, so the install completes. No lookup in any cache returns
  anything it did not return before, and no asset is requested more than once.
\<close>

theorem install_failure_swallowed:
  assumes "p \<in> set STATIC_ASSETS" and "asset_fetch_fails e p"
  shows "fst (install_handler ver e st) = Fulfilled ()
       \<and> (\<forall>name k. namespace_match (fst (snd (install_handler ver e st))) name k
                      = namespace_match st name k)
       \<and> (\<exists>err. last (snd (snd (install_handler ver e st)))
                  = ConsoleError (''[Service Worker] Cache failed: '' @ err))
       \<and> (\<forall>u. count_list (snd (snd (install_handler ver e st))) (NetFetch u) \<le> 1)"
proof (intro conjI)
  show "fst (install_handler ver e st) = Fulfilled ()"
    by (rule install_never_rejects)
  show "\<forall>name k. namespace_match (fst (snd (install_handler ver e st))) name k
                      = namespace_match st name k"
    using install_failed_storage [OF assms, of ver st]
    by (auto simp: namespace_match_open)
  show "\<exists>err. last (snd (snd (install_handler ver e st)))
                  = ConsoleError (''[Service Worker] Cache failed: '' @ err)"
    by (rule install_failed_error [OF assms])
  show "\<forall>u. count_list (snd (snd (install_handler ver e st))) (NetFetch u) \<le> 1"
    using install_fetches_once by blast
qed

text \<open>The logo cannot be fetched, and the promise of the install is fulfilled.\<close>

theorem install_failure_counterexample:
  "''/logo.png'' \<in> set STATIC_ASSETS
   \<and> net env_logo_down (resolve_url env_logo_down ''/logo.png'') = None
   \<and> fst (install_handler CACHE_VERSION env_logo_down []) = Fulfilled ()"
  by (simp add: STATIC_ASSETS_def env_logo_down_def install_defs resolve_url_def)

theorem install_failure_swallowed_witness:
  "install_handler CACHE_VERSION env_logo_down []
     = (Fulfilled (), [(''quang-hugo-v1'', [])],
        [ConsoleLog ''[Service Worker] Installing...'', CachesOpen ''quang-hugo-v1'', SkipWaiting,
         ConsoleLog ''[Service Worker] Caching static assets'',
         CacheAddAll ''quang-hugo-v1'' (map (Pair site) STATIC_ASSETS)]
        @ map (\<lambda>p. NetFetch (site, p)) STATIC_ASSETS
        @ [ConsoleError ''[Service Worker] Cache failed: fetch''])"
proof -
  have a: "''/logo.png'' \<in> set STATIC_ASSETS" by (simp add: STATIC_ASSETS_def)
  have b: "asset_fetch_fails env_logo_down ''/logo.png''"
    by (simp add: asset_fetch_fails_def env_logo_down_def resolve_url_def)
  have c: "snd (install_handler CACHE_VERSION env_logo_down [])
     = ([(''quang-hugo-v1'', [])],
        [ConsoleLog ''[Service Worker] Installing...'', CachesOpen ''quang-hugo-v1'', SkipWaiting,
         ConsoleLog ''[Service Worker] Caching static assets'',
         CacheAddAll ''quang-hugo-v1'' (map (Pair site) STATIC_ASSETS)]
        @ map (\<lambda>p. NetFetch (site, p)) STATIC_ASSETS
        @ [ConsoleError ''[Service Worker] Cache failed: fetch''])"
    by (simp add: install_defs STATIC_ASSETS_def env_logo_down_def resolve_url_def
        CACHE_NAME_def CACHE_VERSION_def caches_open_def caches_keys_def)
  from install_failure_swallowed [OF a b, of CACHE_VERSION "[]"]
  have "fst (install_handler CACHE_VERSION env_logo_down []) = Fulfilled ()"
    by simp
  with c show ?thesis
    by (metis prod.collapse)
qed


















section \<open>Properties of the activate handler\<close>

lemma in_set_remove_nth:
  "x \<in> set xs \<Longrightarrow> i < length xs \<Longrightarrow> x \<noteq> xs ! i \<Longrightarrow> x \<in> set (take i xs @ drop (Suc i) xs)"
  by (metis Cons_nth_drop_Suc append_take_drop_id set_ConsD set_append Un_iff)

lemma set_remove_nth_subset: "set (take i xs @ drop (Suc i) xs) \<subseteq> set xs"
  by (auto dest: in_set_takeD in_set_dropD)

lemma stale_names_iff: "n \<in> set (stale_names ver st) \<longleftrightarrow> n \<in> fst ` set st \<and> n \<noteq> CACHE_NAME ver"
  by (auto simp: stale_names_def caches_keys_def)

lemma filter_current_delete:
  "n \<noteq> name \<Longrightarrow> filter (\<lambda>ns. fst ns = name) (caches_delete st n) = filter (\<lambda>ns. fst ns = name) st"
  by (induction st) (auto simp: caches_delete_def)

lemma purge_inv_step:
  assumes e: "purge_faultless e" and inv: "purge_inv ver st w"
  shows "purge_inv ver st (step ver e i w)"
proof (cases "i < length (pending w)")
  case False
  with inv show ?thesis by (simp add: step_def)
next
  case True
  let ?rest = "take i (pending w) @ drop (Suc i) (pending w)"
  have sub: "x \<in> set ?rest \<Longrightarrow> x \<in> set (pending w)" for x
    using set_remove_nth_subset by fastforce
  have keep: "x \<in> set (pending w) \<Longrightarrow> x \<noteq> pending w ! i \<Longrightarrow> x \<in> set ?rest" for x
    using in_set_remove_nth [OF _ True] by blast
  have here: "pending w ! i \<in> set (pending w)"
    using True by simp
  from e have nf: "\<not> faults e OpKeys" "\<And>n. \<not> faults e (OpDelete n)"
    by (simp_all add: purge_faultless_def)
  show ?thesis
  proof (cases "pending w ! i")
    case KeysThen
    have "ClaimTask \<in> set (pending w) \<Longrightarrow> ClaimTask \<in> set ?rest"
      using keep KeysThen by simp
    moreover have "DeleteTask (CACHE_NAME ver) \<notin> set ?rest"
      using inv sub unfolding purge_inv_def by blast
    ultimately show ?thesis
      using inv True KeysThen nf
      unfolding purge_inv_def step_def
      by (auto simp: stale_names_iff)
  next
    case (DeleteTask n)
    with inv here have n: "n \<noteq> CACHE_NAME ver"
      unfolding purge_inv_def by metis
    have a: "ClaimTask \<in> set (pending w) \<Longrightarrow> ClaimTask \<in> set ?rest"
      using keep DeleteTask by simp
    have b: "KeysThen \<in> set (pending w) \<Longrightarrow> KeysThen \<in> set ?rest"
      using keep DeleteTask by simp
    have c: "DeleteTask (CACHE_NAME ver) \<notin> set ?rest"
      using inv sub unfolding purge_inv_def by blast
    have d: "DeleteTask m \<in> set (pending w) \<Longrightarrow> m \<noteq> n \<Longrightarrow> DeleteTask m \<in> set ?rest" for m
      using keep DeleteTask by simp
    have s: "step ver e i w = w\<lparr>pending := ?rest, storage := caches_delete (storage w) n\<rparr>"
      using True DeleteTask nf by (simp add: step_def)
    have "\<forall>ns \<in> set (caches_delete (storage w) n).
            fst ns \<noteq> CACHE_NAME ver \<longrightarrow> DeleteTask (fst ns) \<in> set ?rest"
      if "\<forall>ns \<in> set (storage w). fst ns \<noteq> CACHE_NAME ver \<longrightarrow> DeleteTask (fst ns) \<in> set (pending w)"
      using that d by (auto simp: caches_delete_def)
    with inv a b c show ?thesis
      unfolding purge_inv_def s
      by (auto simp: filter_current_delete [OF n])
  next
    case ClaimTask
    have b: "KeysThen \<in> set (pending w) \<Longrightarrow> KeysThen \<in> set ?rest"
      using keep ClaimTask by simp
    have c: "DeleteTask (CACHE_NAME ver) \<notin> set ?rest"
      using inv sub unfolding purge_inv_def by blast
    have d: "DeleteTask m \<in> set (pending w) \<Longrightarrow> DeleteTask m \<in> set ?rest" for m
      using keep ClaimTask by simp
    have s: "step ver e i w = w\<lparr>pending := ?rest, controlling := True\<rparr>"
      using True ClaimTask by (simp add: step_def)
    from inv b c d show ?thesis
      unfolding purge_inv_def s by auto
  qed
qed

lemma purge_inv_run:
  "purge_faultless e \<Longrightarrow> purge_inv ver st w \<Longrightarrow> purge_inv ver st (run ver e sched w)"
  unfolding run_def by (induction sched arbitrary: w) (auto simp: purge_inv_step)

lemma purge_inv_handler:
  "purge_inv ver st (activate_handler ver
       \<lparr>storage = st, controlling = False, pending = [], trace = [], failed = False\<rparr>)"
  by (simp add: purge_inv_def activate_handler_def)

lemma purge_inv_activate: "purge_faultless e \<Longrightarrow> purge_inv ver st (activate ver e sched st)"
  unfolding activate_def by (rule purge_inv_run [OF _ purge_inv_handler])

lemma purge_inv_done:
  assumes "purge_inv ver st w" and "pending w = []"
  shows "storage w = filter (\<lambda>ns. fst ns = CACHE_NAME ver) st \<and> controlling w"
proof -
  from assms have all: "\<forall>ns \<in> set (storage w). fst ns = CACHE_NAME ver" and c: "controlling w"
    and f: "filter (\<lambda>ns. fst ns = CACHE_NAME ver) (storage w) = filter (\<lambda>ns. fst ns = CACHE_NAME ver) st"
    unfolding purge_inv_def by auto
  from all have "filter (\<lambda>ns. fst ns = CACHE_NAME ver) (storage w) = storage w"
    by (simp add: filter_id_conv)
  with f c show ?thesis by simp
qed

lemma CACHE_NAME_inj: "CACHE_NAME a = CACHE_NAME b \<longleftrightarrow> a = b"
  by (simp add: CACHE_NAME_def)

lemma step_trace_prefix: "prefix (trace w) (trace (step ver e i w))"
  by (cases "pending w ! i") (auto simp: step_def)

lemma run_trace_prefix: "prefix (trace w) (trace (run ver e sched w))"
  unfolding run_def
proof (induction sched arbitrary: w)
  case Nil
  then show ?case by simp
next
  case (Cons i sched)
  have "prefix (trace w) (trace (step ver e i w))"
    by (rule step_trace_prefix)
  also have "prefix \<dots> (trace (fold (step ver e) sched (step ver e i w)))"
    by (rule Cons.IH)
  finally show ?case by simp
qed

text \<open>Every activation can run to completion: some schedule leaves nothing under way.\<close>

lemma run_pops:
  "KeysThen \<notin> set (pending w) \<Longrightarrow> n = length (pending w)
     \<Longrightarrow> pending (run ver e (replicate n 0) w) = []"
proof (induction n arbitrary: w)
  case 0
  then show ?case by (simp add: run_def)
next
  case (Suc n)
  then obtain t ts where p: "pending w = t # ts"
    by (cases "pending w") auto
  with Suc.prems have t: "t \<noteq> KeysThen" "KeysThen \<notin> set ts" "n = length ts"
    by auto
  have "pending (step ver e 0 w) = ts"
    using p t(1) by (cases t) (auto simp: step_def)
  with Suc.IH [of "step ver e 0 w"] t show ?case
    by (simp add: run_def)
qed

lemma activate_can_complete: "\<exists>sched. pending (activate ver e sched st) = []"
proof -
  let ?w0 = "activate_handler ver
          \<lparr>storage = st, controlling = False, pending = [], trace = [], failed = False\<rparr>"
  let ?w1 = "step ver e 0 ?w0"
  have "KeysThen \<notin> set (pending ?w1)"
    by (auto simp: step_def activate_handler_def)
  then have "pending (run ver e (replicate (length (pending ?w1)) 0) ?w1) = []"
    by (rule run_pops) simp
  then have "pending (activate ver e (0 # replicate (length (pending ?w1)) 0) st) = []"
    by (simp add: activate_def run_def)
  then show ?thesis by blast
qed

text \<open>
  Claim C2, as amended. The handler issues \<open>clients.claim()\<close> at once, right after it
  has asked for the names of the caches and before any deletion is issued: the first
  three platform calls are the log line, \<open>caches.keys()\<close> and \<open>clients.claim()\<close>, whatever
  the schedule. The claim is not ordered after the purge. Once every operation
  that was started has completed, without a storage failure, the worker controls the
  pages and only caches named \<open>CACHE_NAME\<close> are left.
\<close>

theorem activate_claim_issued_first:
  "prefix [ConsoleLog ''[Service Worker] Activating...'', CachesKeys, ClientsClaim]
     (trace (activate ver e sched st))
   \<and> (purge_faultless e \<and> pending (activate ver e sched st) = [] \<longrightarrow>
        controlling (activate ver e sched st)
        \<and> set (caches_keys (storage (activate ver e sched st))) \<subseteq> {CACHE_NAME ver})"
proof
  show "prefix [ConsoleLog ''[Service Worker] Activating...'', CachesKeys, ClientsClaim]
     (trace (activate ver e sched st))"
    using run_trace_prefix [of "activate_handler ver
          \<lparr>storage = st, controlling = False, pending = [], trace = [], failed = False\<rparr>" ver e sched]
    by (simp add: activate_def activate_handler_def)
  show "purge_faultless e \<and> pending (activate ver e sched st) = [] \<longrightarrow>
        controlling (activate ver e sched st)
        \<and> set (caches_keys (storage (activate ver e sched st))) \<subseteq> {CACHE_NAME ver}"
  proof
    assume a: "purge_faultless e \<and> pending (activate ver e sched st) = []"
    then have "storage (activate ver e sched st) = filter (\<lambda>ns. fst ns = CACHE_NAME ver) st
       \<and> controlling (activate ver e sched st)"
      using purge_inv_done purge_inv_activate by blast
    then show "controlling (activate ver e sched st)
        \<and> set (caches_keys (storage (activate ver e sched st))) \<subseteq> {CACHE_NAME ver}"
      by (auto simp: caches_keys_def)
  qed
qed

text \<open>
  The claim completes first: the worker of version \<open>v2\<close> controls the pages while the
  cache of version \<open>v1\<close> is still stored and no deletion has been issued.
\<close>

theorem activate_claim_before_purge_counterexample:
  "controlling (activate ''v2'' env_online [1] two_versions)
   \<and> caches_keys (storage (activate ''v2'' env_online [1] two_versions))
       = [''quang-hugo-v1'', ''quang-hugo-v2'']
   \<and> CACHE_NAME ''v2'' = ''quang-hugo-v2''
   \<and> trace (activate ''v2'' env_online [1] two_versions)
       = [ConsoleLog ''[Service Worker] Activating...'', CachesKeys, ClientsClaim]"
  by (simp add: activate_def run_def step_def activate_handler_def caches_keys_def
      CACHE_NAME_def two_versions_def)

theorem activate_claim_issued_first_witness:
  "trace (activate ''v2'' env_online [0, 0, 0] two_versions)
     = [ConsoleLog ''[Service Worker] Activating...'', CachesKeys, ClientsClaim,
        ConsoleLog ''[Service Worker] Deleting old cache: quang-hugo-v1'',
        CachesDelete ''quang-hugo-v1'']
   \<and> controlling (activate ''v2'' env_online [0, 0, 0] two_versions)
   \<and> caches_keys (storage (activate ''v2'' env_online [0, 0, 0] two_versions)) = [''quang-hugo-v2'']"
proof -
  have f: "purge_faultless env_online"
    by (simp add: purge_faultless_def env_online_def)
  have p: "pending (activate ''v2'' env_online [0, 0, 0] two_versions) = []"
    by (simp add: activate_def run_def step_def activate_handler_def stale_names_def
        caches_keys_def caches_delete_def CACHE_NAME_def two_versions_def env_online_def)
  have t: "trace (activate ''v2'' env_online [0, 0, 0] two_versions)
     = [ConsoleLog ''[Service Worker] Activating...'', CachesKeys, ClientsClaim,
        ConsoleLog ''[Service Worker] Deleting old cache: quang-hugo-v1'',
        CachesDelete ''quang-hugo-v1'']"
    by (simp add: activate_def run_def step_def activate_handler_def stale_names_def
        caches_keys_def caches_delete_def CACHE_NAME_def two_versions_def env_online_def)
  have k: "caches_keys (storage (activate ''v2'' env_online [0, 0, 0] two_versions)) = [''quang-hugo-v2'']"
    by (simp add: activate_def run_def step_def activate_handler_def stale_names_def
        caches_keys_def caches_delete_def CACHE_NAME_def two_versions_def env_online_def)
  from activate_claim_issued_first [of "''v2''" env_online "[0, 0, 0]" two_versions] f p
  have "controlling (activate ''v2'' env_online [0, 0, 0] two_versions)"
    by simp
  with t k show ?thesis by simp
qed

text \<open>
  Claim C3. When the activation for a version has completed without a storage failure,
  the storage holds exactly the caches named \<open>CACHE_NAME\<close> that it held before, with their
  entries: every cache of another name is deleted, in particular the cache of any other
  version, and the current one is kept.
\<close>

theorem activate_purges_stale:
  assumes "purge_faultless e" and "pending (activate ver e sched st) = []"
  shows "storage (activate ver e sched st) = filter (\<lambda>ns. fst ns = CACHE_NAME ver) st
       \<and> (\<forall>name \<in> set (caches_keys (storage (activate ver e sched st))). name = CACHE_NAME ver)
       \<and> (v1 \<noteq> ver \<longrightarrow> CACHE_NAME v1 \<notin> set (caches_keys (storage (activate ver e sched st))))
       \<and> (\<forall>c. (CACHE_NAME ver, c) \<in> set st
              \<longrightarrow> (CACHE_NAME ver, c) \<in> set (storage (activate ver e sched st)))"
proof -
  have s: "storage (activate ver e sched st) = filter (\<lambda>ns. fst ns = CACHE_NAME ver) st"
    using purge_inv_done [OF purge_inv_activate [OF assms(1)] assms(2)] by simp
  show ?thesis
    unfolding s by (auto simp: caches_keys_def CACHE_NAME_inj)
qed

theorem activate_purges_stale_witness:
  "pending (activate ''v2'' env_online [0, 0, 0] two_versions) = []
   \<and> storage (activate ''v2'' env_online [0, 0, 0] two_versions)
       = [(''quang-hugo-v2'', [((site, ''/''), ok_page ''new'')])]
   \<and> CACHE_NAME ''v1'' \<notin> set (caches_keys (storage (activate ''v2'' env_online [0, 0, 0] two_versions)))"
proof -
  have f: "purge_faultless env_online"
    by (simp add: purge_faultless_def env_online_def)
  have p: "pending (activate ''v2'' env_online [0, 0, 0] two_versions) = []"
    by (simp add: activate_def run_def step_def activate_handler_def stale_names_def
        caches_keys_def caches_delete_def CACHE_NAME_def two_versions_def env_online_def)
  have c: "filter (\<lambda>ns. fst ns = CACHE_NAME ''v2'') two_versions
             = [(''quang-hugo-v2'', [((site, ''/''), ok_page ''new'')])]"
    by (simp add: CACHE_NAME_def two_versions_def)
  have d: "''v1'' \<noteq> ''v2''"
    by simp
  from activate_purges_stale [OF f p, of "''v1''"]
  have "storage (activate ''v2'' env_online [0, 0, 0] two_versions)
          = filter (\<lambda>ns. fst ns = CACHE_NAME ''v2'') two_versions"
    and "CACHE_NAME ''v1'' \<notin> set (caches_keys (storage (activate ''v2'' env_online [0, 0, 0] two_versions)))"
    using d by blast+
  with p c show ?thesis
    by simp
qed

section \<open>Stored entries have an ok status\<close>

text \<open>
  The handlers store only responses that \<open>cache.addAll\<close> accepts (the write-back stores
  responses of status 200), so \<open>entries_ok\<close> holds of every storage they produce from an
  empty one.
\<close>

lemma entries_ok_alt:
  "entries_ok st \<longleftrightarrow> (\<forall>n c k r. (n, c) \<in> set st \<longrightarrow> (k, r) \<in> set c \<longrightarrow> addable r)"
  unfolding entries_ok_def by fastforce

lemma entries_ok_empty: "entries_ok []"
  by (simp add: entries_ok_def)

lemma entries_ok_open: "entries_ok st \<Longrightarrow> entries_ok (caches_open st n)"
  by (auto simp: entries_ok_alt caches_open_def split: if_splits)

lemma entries_ok_delete: "entries_ok st \<Longrightarrow> entries_ok (caches_delete st n)"
  by (auto simp: entries_ok_alt caches_delete_def)

lemma entries_ok_put: "entries_ok st \<Longrightarrow> addable r \<Longrightarrow> entries_ok (storage_put st n k r)"
  unfolding entries_ok_alt storage_put_def cache_put_def
  by (auto split: if_splits)

lemma entries_ok_put_all:
  "entries_ok st \<Longrightarrow> \<forall>x \<in> set rs. addable (snd x) \<Longrightarrow> entries_ok (put_all st n rs)"
  unfolding put_all_def by (induction rs arbitrary: st) (auto simp: entries_ok_put)

lemma fetch_all_addable: "fetch_all e us = Some rs \<Longrightarrow> \<forall>x \<in> set rs. addable (snd x)"
  by (induction us arbitrary: rs) (auto split: option.splits if_splits)

lemma entries_ok_install: "entries_ok st \<Longrightarrow> entries_ok (fst (snd (install_handler ver e st)))"
  by (auto simp: install_defs entries_ok_open entries_ok_put_all fetch_all_addable
      split: option.splits)

lemma entries_ok_fetch: "entries_ok st \<Longrightarrow> entries_ok (fst (snd (fetch_handler ver e st req)))"
  by (auto simp: fetch_defs entries_ok_open entries_ok_put addable_def split: option.splits)

lemma entries_ok_step: "entries_ok (storage w) \<Longrightarrow> entries_ok (storage (step ver e i w))"
  by (cases "pending w ! i") (auto simp: step_def entries_ok_delete)

lemma entries_ok_activate: "entries_ok st \<Longrightarrow> entries_ok (storage (activate ver e sched st))"
proof -
  have "entries_ok (storage w) \<Longrightarrow> entries_ok (storage (fold (step ver e) sched w))" for w
    by (induction sched arbitrary: w) (auto simp: entries_ok_step)
  then show "entries_ok st \<Longrightarrow> entries_ok (storage (activate ver e sched st))"
    by (simp add: activate_def run_def activate_handler_def)
qed

end
